theory Spec2Isabelle
  imports Main "HOL-Library.Sublist" "HOL-Library.AList"
begin

section \<open>Capture/scan controller: class \<open>QRCodeReader\<close> of app.js\<close>

text \<open>
  The controller is a JavaScript object with mutable fields; every method is modelled as a
  function from the state before the call to the state after it, together with the list
  of effects the call has on its collaborators (DOM, media devices, scheduler), in
  program order. What the platform decides (whether \<open>getUserMedia\<close> resolves, what
  \<open>new URL\<close> accepts, whether \<open>navigator.vibrate\<close> exists, what the decoder sees in a
  frame) is an explicit argument.

  The user-visible messages of the source are Japanese literals; they are named by the
  constructors of \<open>status_msg\<close>. \<open>frameCount\<close> is a JavaScript number that is only ever
  incremented by one from 0, so it is a natural number here (it stays exact below
  \<open>2 ^ 53\<close>). JavaScript strings are sequences of code units; \<open>escapeHtml\<close> and \<open>===\<close>
  work unit by unit, which \<open>string\<close> (a list of characters) follows.
\<close>

subsection \<open>State, platform and effects\<close>

datatype facing = Environment | User

datatype status_type = NoType | SuccessType | ErrorType

datatype status_msg =
    MsgCameraNotStarted
  | MsgSwitched facing
  | MsgSwitchFailed
  | MsgQRRead

datatype js_error = JsError string

type_synonym stream_handle = nat

record controller =
  stream :: "stream_handle option"
  scanning :: bool
  cameraActive :: bool
  facingMode :: facing
  lastResult :: string
  statusTimeout :: bool
  frameCount :: nat

record platform =
  url_protocol :: "string \<Rightarrow> string option"
  has_vibrate :: bool

record frame =
  ready :: bool
  decoded :: "string option"

datatype effect =
    StopTracks stream_handle
  | SetSrcObject "stream_handle option"
  | GetUserMedia facing
  | AddMetadataListener
  | SetResultHtml string
  | AddHasResultClass
  | ShowCopyButton
  | ClearTimeout
  | SetStatus status_msg status_type
  | SetTimeout nat
  | Vibrate nat
  | DrawImage
  | GetImageData
  | CallDecoder
  | RequestAnimationFrame
  | ConsoleError js_error

text \<open>The constructor's field initialisers (lines 26 to 32).\<close>

definition constructor :: controller where
  "constructor = \<lparr> stream = None, scanning = False, cameraActive = False,
     facingMode = Environment, lastResult = [], statusTimeout = False, frameCount = 0 \<rparr>"

subsection \<open>Status line\<close>

text \<open>
  \<open>showStatus\<close> clears a pending hide timer, writes the message and its class, and arms a
  new timer of 3000 ms; \<open>statusTimeout\<close> records that a timer is pending.
\<close>

definition showStatus :: "controller \<Rightarrow> status_msg \<Rightarrow> status_type \<Rightarrow> controller \<times> effect list" where
  "showStatus s msg ty =
     (s\<lparr>statusTimeout := True\<rparr>,
      (if statusTimeout s then [ClearTimeout] else []) @ [SetStatus msg ty, SetTimeout 3000])"

subsection \<open>Rendering a result\<close>

text \<open>
  \<open>isValidUrl\<close>: \<open>new URL(string)\<close> either throws (the platform's \<open>url_protocol\<close> is
  \<open>None\<close>, caught, result false) or yields an absolute URL whose protocol is compared
  with the two literals.
\<close>

definition isValidUrl :: "platform \<Rightarrow> string \<Rightarrow> bool" where
  "isValidUrl P string =
     (case url_protocol P string of
        None \<Rightarrow> False
      | Some protocol \<Rightarrow> protocol = ''http:'' \<or> protocol = ''https:'')"

text \<open>
  \<open>escapeHtml\<close>: every code unit matched by the character class of the regular expression
  is replaced by its entry in the table; a match without an entry would be replaced by
  the text of \<open>undefined\<close>, as \<open>String.prototype.replace\<close> does.
\<close>

definition escape_map :: "(char \<times> string) list" where
  "escape_map =
     [(CHR ''&'', ''&amp;''), (CHR ''<'', ''&lt;''), (CHR ''>'', ''&gt;''),
      (CHR 0x22, ''&quot;''), (CHR 0x27, ''&#039;'')]"

definition escape_class :: "char list" where
  "escape_class = [CHR ''&'', CHR ''<'', CHR ''>'', CHR 0x22, CHR 0x27]"

definition replace_match :: "char \<Rightarrow> string" where
  "replace_match m = (case map_of escape_map m of Some e \<Rightarrow> e | None \<Rightarrow> ''undefined'')"

definition escapeHtml :: "string \<Rightarrow> string" where
  "escapeHtml text = concat (map (\<lambda>c. if c \<in> set escape_class then replace_match c else [c]) text)"

text \<open>The two template literals of \<open>displayResult\<close>, with their line breaks and indentation.\<close>

definition link_html :: "string \<Rightarrow> string" where
  "link_html data =
     [CHR 0x0A] @ replicate 16 CHR '' '' @ ''<p class='' @ [CHR 0x22] @ ''result-text'' @ [CHR 0x22] @ ''>''
     @ [CHR 0x0A] @ replicate 20 CHR '' '' @ ''<strong>URL:</strong><br>''
     @ [CHR 0x0A] @ replicate 20 CHR '' '' @ ''<a href='' @ [CHR 0x22] @ data @ [CHR 0x22]
     @ '' target='' @ [CHR 0x22] @ ''_blank'' @ [CHR 0x22]
     @ '' rel='' @ [CHR 0x22] @ ''noopener noreferrer'' @ [CHR 0x22] @ ''>'' @ data @ ''</a>''
     @ [CHR 0x0A] @ replicate 16 CHR '' '' @ ''</p>''
     @ [CHR 0x0A] @ replicate 12 CHR '' ''"

definition text_html :: "string \<Rightarrow> string" where
  "text_html data =
     ''<p class='' @ [CHR 0x22] @ ''result-text'' @ [CHR 0x22] @ ''>'' @ escapeHtml data @ ''</p>''"

definition displayResult :: "platform \<Rightarrow> string \<Rightarrow> effect list" where
  "displayResult P data =
     (let isUrl = isValidUrl P data;
          html = (if isUrl then link_html data else text_html data)
      in [SetResultHtml html, AddHasResultClass, ShowCopyButton])"

subsection \<open>A decoded payload\<close>

definition handleQRCode :: "platform \<Rightarrow> controller \<Rightarrow> string \<Rightarrow> controller \<times> effect list" where
  "handleQRCode P s data =
     (if data = lastResult s then (s, [])
      else
        let s1 = s\<lparr>lastResult := data\<rparr>;
            o1 = displayResult P data;
            (s2, o2) = showStatus s1 MsgQRRead SuccessType;
            o3 = (if has_vibrate P then [Vibrate 200] else [])
        in (s2, o1 @ o2 @ o3))"

text \<open>
  The payloads the decoder delivers one after the other, each handled in the state the
  previous one left; the effects are collected in order.
\<close>

fun deliver :: "platform \<Rightarrow> controller \<Rightarrow> string list \<Rightarrow> controller \<times> effect list" where
  "deliver P s [] = (s, [])"
| "deliver P s (d # ds) =
     (let (s1, o1) = handleQRCode P s d;
          (s2, o2) = deliver P s1 ds
      in (s2, o1 @ o2))"

text \<open>A result event is the write of a rendered result into the result element.\<close>

fun is_result :: "effect \<Rightarrow> bool" where
  "is_result (SetResultHtml h) = True"
| "is_result e = False"

fun is_vibrate :: "effect \<Rightarrow> bool" where
  "is_vibrate (Vibrate n) = True"
| "is_vibrate e = False"

text \<open>
  The number of payloads of a sequence that differ from the payload before them, the
  first one being compared with \<open>prev\<close>.
\<close>

fun changes :: "string \<Rightarrow> string list \<Rightarrow> nat" where
  "changes prev [] = 0"
| "changes prev (d # ds) = (if d = prev then 0 else 1) + changes d ds"

subsection \<open>Camera lifecycle\<close>

text \<open>
  \<open>startCamera\<close> awaits \<open>getUserMedia\<close> with the current facing; the argument \<open>gum\<close> is
  what that promise settles to. The first component of the result is \<open>Inl\<close> when the
  method throws. The scan loop is started later, by the listener for the stream's
  metadata.
\<close>

definition startCamera ::
  "controller \<Rightarrow> js_error + stream_handle \<Rightarrow> (js_error + unit) \<times> controller \<times> effect list" where
  "startCamera s gum =
     (case gum of
        Inr h \<Rightarrow>
          (Inr (), s\<lparr>stream := Some h, cameraActive := True\<rparr>,
           [GetUserMedia (facingMode s), SetSrcObject (Some h), AddMetadataListener])
      | Inl error \<Rightarrow>
          (Inl error, s\<lparr>cameraActive := False\<rparr>, [GetUserMedia (facingMode s)]))"

definition stopScanning :: "controller \<Rightarrow> controller" where
  "stopScanning s = s\<lparr>scanning := False\<rparr>"

definition stopCamera :: "controller \<Rightarrow> controller \<times> effect list" where
  "stopCamera s =
     (let (s1, o1) = (case stream s of
                        Some h \<Rightarrow> (s\<lparr>stream := None\<rparr>, [StopTracks h])
                      | None \<Rightarrow> (s, []))
      in (stopScanning (s1\<lparr>cameraActive := False\<rparr>), o1 @ [SetSrcObject None]))"

text \<open>The conditional expression of lines 80 and 92.\<close>

definition other_facing :: "facing \<Rightarrow> facing" where
  "other_facing f = (if f = Environment then User else Environment)"

definition switchCamera ::
  "controller \<Rightarrow> js_error + stream_handle \<Rightarrow> (js_error + unit) \<times> controller \<times> effect list" where
  "switchCamera s gum =
     (if \<not> cameraActive s then
        (let (s1, o1) = showStatus s MsgCameraNotStarted ErrorType in (Inr (), s1, o1))
      else
        let s1 = s\<lparr>facingMode := other_facing (facingMode s)\<rparr>;
            (s2, o2) = stopCamera s1
        in (case startCamera s2 gum of
              (Inr u, s3, o3) \<Rightarrow>
                (let (s4, o4) = showStatus s3 (MsgSwitched (facingMode s3)) SuccessType
                 in (Inr (), s4, o2 @ o3 @ o4))
            | (Inl error, s3, o3) \<Rightarrow>
                (let (s4, o4) = showStatus s3 MsgSwitchFailed ErrorType
                 in (Inr (), s4\<lparr>facingMode := other_facing (facingMode s4)\<rparr>,
                     o2 @ o3 @ o4 @ [ConsoleError error]))))"

subsection \<open>Scan loop\<close>

text \<open>
  One call of \<open>scan\<close>. The frame says whether the video element has enough data and what
  the decoder finds in the pixels (\<open>None\<close> for a null result).
\<close>

definition decode_effects :: "effect list" where
  "decode_effects = [DrawImage, GetImageData, CallDecoder]"

definition scan :: "platform \<Rightarrow> controller \<Rightarrow> frame \<Rightarrow> controller \<times> effect list" where
  "scan P s f =
     (if \<not> scanning s \<or> \<not> cameraActive s then (s, [])
      else
        let s1 = s\<lparr>frameCount := frameCount s + 1\<rparr>;
            (s2, o2) =
              (if frameCount s1 mod 3 = 0 then
                 (if ready f then
                    (case decoded f of
                       None \<Rightarrow> (s1, decode_effects)
                     | Some data \<Rightarrow>
                         (let (s', o') = handleQRCode P s1 data in (s', decode_effects @ o')))
                  else (s1, []))
               else (s1, []))
        in (s2, o2 @ [RequestAnimationFrame]))"

definition startScanning :: "platform \<Rightarrow> controller \<Rightarrow> frame \<Rightarrow> controller \<times> effect list" where
  "startScanning P s f = scan P (s\<lparr>scanning := True\<rparr>) f"

text \<open>
  The loop: a call of \<open>scan\<close> per frame, the next one only if the call before asked for
  another animation frame. The result lists the effects of each call that ran.
\<close>

fun ticks :: "platform \<Rightarrow> controller \<Rightarrow> frame list \<Rightarrow> controller \<times> effect list list" where
  "ticks P s [] = (s, [])"
| "ticks P s (f # fs) =
     (let (s1, o1) = scan P s f
      in if RequestAnimationFrame \<in> set o1
         then (let (s2, os) = ticks P s1 fs in (s2, o1 # os))
         else (s1, [o1]))"

definition decode_work :: "effect list \<Rightarrow> bool" where
  "decode_work out = (take 3 out = decode_effects)"

definition no_decode_work :: "effect list \<Rightarrow> bool" where
  "no_decode_work out = (DrawImage \<notin> set out \<and> GetImageData \<notin> set out \<and> CallDecoder \<notin> set out)"

definition reschedules :: "effect list \<Rightarrow> bool" where
  "reschedules out = (out \<noteq> [] \<and> last out = RequestAnimationFrame)"

section \<open>Offline asset cache: the service worker\<close>

text \<open>
  The worker's persistent state is the platform's cache storage: named stores in creation
  order, each a list of request/response pairs. The handlers are promise chains; each is
  modelled as a function that returns what the promise handed to the platform settles to
  (\<open>Inl\<close> for a rejection), the state afterwards and the events of the run: the
  network fetches the handler itself makes, its console output, and rejections that
  nothing handles. A detached promise (one that is neither returned nor awaited) is run
  to completion before the handler's result is reported.

  The cache name and the URL list are arguments; \<open>CACHE_NAME\<close> and \<open>urlsToCache\<close> are the
  values the source declares. Console messages and the bodies of the synthesized
  responses are Japanese literals, named by constructors.
\<close>

subsection \<open>Requests, responses and the platform\<close>

datatype response_type = Basic | Cors | Default | ErrorResponse | Opaque | OpaqueRedirect

datatype body = Content string | OfflineText | OfflineJsqrText

record response =
  status :: nat
  statusText :: string
  rtype :: response_type
  body :: body

record request =
  url :: string
  req_method :: string

type_synonym cache = "(request \<times> response) list"

type_synonym cache_storage = "(string \<times> cache) list"

record worker =
  caches :: cache_storage
  skipWaitingCalled :: bool
  clientsClaimed :: bool

text \<open>
  What the platform decides: the outcome of a network fetch, and whether opening a store,
  looking a request up or writing an entry is rejected (a storage error, an exceeded
  quota, a request that the cache refuses to store such as one whose method is not GET).
\<close>

record network =
  fetch :: "request \<Rightarrow> js_error + response"
  open_rejects :: "js_error option"
  match_rejects :: "js_error option"
  put_rejects :: "request \<Rightarrow> js_error option"

datatype sw_event =
    NetFetch request
  | LogInstalling
  | LogCaching
  | LogCacheDone
  | ErrCache js_error
  | LogActivating
  | LogDeleting string
  | LogActivated
  | ErrFetch js_error
  | Unhandled js_error

definition CACHE_NAME :: string where
  "CACHE_NAME = ''qr-reader-v1''"

definition urlsToCache :: "string list" where
  "urlsToCache =
     [''/PWA-QR-Reader/'', ''/PWA-QR-Reader/index.html'', ''/PWA-QR-Reader/styles.css'',
      ''/PWA-QR-Reader/app.js'', ''/PWA-QR-Reader/manifest.json'',
      ''/PWA-QR-Reader/icon-192.png'', ''/PWA-QR-Reader/icon-512.png'']"

subsection \<open>The cache storage capability\<close>

text \<open>
  These are the operations of the platform that the handlers call, with the contract the
  platform gives them: \<open>caches.open\<close> creates the store if it is absent, \<open>caches.match\<close>
  returns the first hit over all stores in creation order, \<open>caches.delete\<close> removes a
  store, \<open>cache.put\<close> writes one entry (the last write for a key wins), and
  \<open>cache.addAll\<close> fetches every URL and writes the entries only if every fetch gave a
  response with a status from 200 to 299 and every entry can be written: otherwise it
  rejects and the store is as it was. \<open>caches.keys\<close> and \<open>caches.delete\<close> are taken
  not to reject.
\<close>

definition caches_keys :: "cache_storage \<Rightarrow> string list" where
  "caches_keys cs = map fst cs"

definition caches_open :: "network \<Rightarrow> string \<Rightarrow> cache_storage \<Rightarrow> js_error + cache_storage" where
  "caches_open N name cs =
     (case open_rejects N of
        Some e \<Rightarrow> Inl e
      | None \<Rightarrow> Inr (if name \<in> set (caches_keys cs) then cs else cs @ [(name, [])]))"

definition cache_of :: "string \<Rightarrow> cache_storage \<Rightarrow> cache" where
  "cache_of name cs = (case map_of cs name of Some c \<Rightarrow> c | None \<Rightarrow> [])"

definition caches_delete :: "string \<Rightarrow> cache_storage \<Rightarrow> cache_storage" where
  "caches_delete name cs = AList.delete name cs"

fun first_match :: "cache_storage \<Rightarrow> request \<Rightarrow> response option" where
  "first_match [] q = None"
| "first_match ((name, c) # cs) q =
     (case map_of c q of Some r \<Rightarrow> Some r | None \<Rightarrow> first_match cs q)"

definition caches_match :: "network \<Rightarrow> cache_storage \<Rightarrow> request \<Rightarrow> js_error + response option" where
  "caches_match N cs q =
     (case match_rejects N of Some e \<Rightarrow> Inl e | None \<Rightarrow> Inr (first_match cs q))"

definition cache_put ::
  "network \<Rightarrow> string \<Rightarrow> request \<Rightarrow> response \<Rightarrow> cache_storage \<Rightarrow> js_error + cache_storage" where
  "cache_put N name q r cs =
     (case put_rejects N q of
        Some e \<Rightarrow> Inl e
      | None \<Rightarrow> Inr (AList.update name (AList.update q r (cache_of name cs)) cs))"

definition get_request :: "string \<Rightarrow> request" where
  "get_request u = \<lparr> url = u, req_method = ''GET'' \<rparr>"

definition ok_status :: "response \<Rightarrow> bool" where
  "ok_status r = (200 \<le> status r \<and> status r \<le> 299)"

fun fetch_all :: "network \<Rightarrow> string list \<Rightarrow> js_error + (request \<times> response) list" where
  "fetch_all N [] = Inr []"
| "fetch_all N (u # us) =
     (case fetch N (get_request u) of
        Inl e \<Rightarrow> Inl e
      | Inr r \<Rightarrow>
          if \<not> ok_status r then Inl (JsError ''TypeError'')
          else (case put_rejects N (get_request u) of
                  Some e \<Rightarrow> Inl e
                | None \<Rightarrow>
                    (case fetch_all N us of
                       Inl e \<Rightarrow> Inl e
                     | Inr ps \<Rightarrow> Inr ((get_request u, r) # ps))))"

fun put_all :: "(request \<times> response) list \<Rightarrow> cache \<Rightarrow> cache" where
  "put_all [] c = c"
| "put_all ((q, r) # ps) c = put_all ps (AList.update q r c)"

definition cache_addAll ::
  "network \<Rightarrow> string \<Rightarrow> string list \<Rightarrow> cache_storage \<Rightarrow> js_error + cache_storage" where
  "cache_addAll N name urls cs =
     (case fetch_all N urls of
        Inl e \<Rightarrow> Inl e
      | Inr ps \<Rightarrow> Inr (AList.update name (put_all ps (cache_of name cs)) cs))"

subsection \<open>The install handler\<close>

definition onInstall ::
  "network \<Rightarrow> string \<Rightarrow> string list \<Rightarrow> worker \<Rightarrow> (js_error + unit) \<times> worker \<times> sw_event list" where
  "onInstall N cn urls w =
     (case caches_open N cn (caches w) of
        Inl error \<Rightarrow> (Inr (), w, [LogInstalling, ErrCache error])
      | Inr cs1 \<Rightarrow>
          (case cache_addAll N cn urls cs1 of
             Inl error \<Rightarrow>
               (Inr (), w\<lparr>caches := cs1\<rparr>, [LogInstalling, LogCaching, ErrCache error])
           | Inr cs2 \<Rightarrow>
               (Inr (), w\<lparr>caches := cs2, skipWaitingCalled := True\<rparr>,
                [LogInstalling, LogCaching, LogCacheDone])))"

subsection \<open>The activate handler\<close>

fun delete_old :: "string \<Rightarrow> string list \<Rightarrow> cache_storage \<Rightarrow> cache_storage \<times> sw_event list" where
  "delete_old cn [] cs = (cs, [])"
| "delete_old cn (cacheName # rest) cs =
     (if cacheName \<noteq> cn then
        (let (cs', l) = delete_old cn rest (caches_delete cacheName cs)
         in (cs', LogDeleting cacheName # l))
      else delete_old cn rest cs)"

definition onActivate ::
  "string \<Rightarrow> worker \<Rightarrow> (js_error + unit) \<times> worker \<times> sw_event list" where
  "onActivate cn w =
     (let cacheNames = caches_keys (caches w);
          (cs', l) = delete_old cn cacheNames (caches w)
      in (Inr (), w\<lparr>caches := cs', clientsClaimed := True\<rparr>,
          [LogActivating] @ l @ [LogActivated]))"

subsection \<open>The fetch handler\<close>

text \<open>
  The two synthesized responses, and the handler. A fetch that is fulfilled always gives
  a response object, so the test for a missing response in line 433 never holds and is
  not a branch here.
\<close>

definition offline_response :: response where
  "offline_response =
     \<lparr> status = 503, statusText = ''Service Unavailable'', rtype = Default, body = OfflineText \<rparr>"

definition jsqr_offline_response :: response where
  "jsqr_offline_response =
     \<lparr> status = 503, statusText = ''Service Unavailable'', rtype = Default,
       body = OfflineJsqrText \<rparr>"

text \<open>
  The detached chain of lines 439 to 441: open the store, then put the clone. It returns
  the rejection, if any, and the storage it leaves.
\<close>

definition write_through ::
  "network \<Rightarrow> string \<Rightarrow> request \<Rightarrow> response \<Rightarrow> cache_storage \<Rightarrow> js_error option \<times> cache_storage" where
  "write_through N cn q responseToCache cs =
     (case caches_open N cn cs of
        Inl e \<Rightarrow> (Some e, cs)
      | Inr cs1 \<Rightarrow>
          (case cache_put N cn q responseToCache cs1 of
             Inl e \<Rightarrow> (Some e, cs1)
           | Inr cs2 \<Rightarrow> (None, cs2)))"

definition onFetch ::
  "network \<Rightarrow> string \<Rightarrow> worker \<Rightarrow> request \<Rightarrow> (js_error + response) \<times> worker \<times> sw_event list" where
  "onFetch N cn w q =
     (if prefix ''https://cdn.jsdelivr.net/'' (url q) then
        (case fetch N q of
           Inr r \<Rightarrow> (Inr r, w, [NetFetch q])
         | Inl e \<Rightarrow> (Inr jsqr_offline_response, w, [NetFetch q]))
      else
        (case caches_match N (caches w) q of
           Inl error \<Rightarrow> (Inr offline_response, w, [ErrFetch error])
         | Inr (Some response) \<Rightarrow> (Inr response, w, [])
         | Inr None \<Rightarrow>
             (case fetch N q of
                Inl error \<Rightarrow> (Inr offline_response, w, [NetFetch q, ErrFetch error])
              | Inr response \<Rightarrow>
                  if status response \<noteq> 200 \<or> rtype response \<noteq> Basic
                  then (Inr response, w, [NetFetch q])
                  else
                    (case write_through N cn q response (caches w) of
                       (None, cs') \<Rightarrow> (Inr response, w\<lparr>caches := cs'\<rparr>, [NetFetch q])
                     | (Some e, cs') \<Rightarrow>
                         (Inr response, w\<lparr>caches := cs'\<rparr>, [NetFetch q, Unhandled e])))))"

section \<open>Predicates and sample inputs of the statements\<close>

subsection \<open>Predicates\<close>

text \<open>
  The five entities that \<open>escapeHtml\<close> produces, and the two properties of an escaped
  text: it holds none of the four characters that open or close markup and attribute
  values, and every ampersand in it starts one of the entities.
\<close>

definition entities :: "string list" where
  "entities = map snd escape_map"

definition amp_headed :: "string \<Rightarrow> bool" where
  "amp_headed out =
     (\<forall>i \<in> set [0..<length out]. out ! i = CHR ''&'' \<longrightarrow> (\<exists>e \<in> set entities. prefix e (drop i out)))"

definition raw_free :: "string \<Rightarrow> bool" where
  "raw_free out = (\<forall>c \<in> set out. c \<noteq> CHR ''<'' \<and> c \<noteq> CHR ''>'' \<and> c \<noteq> CHR 0x22 \<and> c \<noteq> CHR 0x27)"

text \<open>
  The ticks (counted from 1) of a run of the loop on which decode work was done.
\<close>

definition work_ticks :: "effect list list \<Rightarrow> nat list" where
  "work_ticks outs = map Suc (filter (\<lambda>k. decode_work (outs ! k)) [0..<length outs])"

text \<open>
  The store names the activate handler reports as deleted.
\<close>

fun deleted :: "sw_event list \<Rightarrow> string list" where
  "deleted [] = []"
| "deleted (LogDeleting n # l) = n # deleted l"
| "deleted (e # l) = deleted l"

text \<open>
  A URL of the list can be fetched and stored: the network answers with a status from
  200 to 299 and the cache accepts the entry.
\<close>

definition fetched :: "network \<Rightarrow> string \<Rightarrow> bool" where
  "fetched N u = (case fetch N (get_request u) of Inl e \<Rightarrow> False | Inr r \<Rightarrow> ok_status r \<and> put_rejects N (get_request u) = None)"

subsection \<open>Sample inputs\<close>

text \<open>
  Sample inputs for the controller: a platform whose URL parser accepts one https
  address and one javascript address, with and without vibration support; the state
  of a first session on the back camera, before the scan loop starts; a frame that is
  not ready and a frame that shows a code.
\<close>

definition demo_protocol :: "string \<Rightarrow> string option" where
  "demo_protocol s =
     (if s = ''https://example.com/'' then Some ''https:''
      else if s = ''javascript:alert(1)'' then Some ''javascript:''
      else None)"

definition demo_platform :: platform where
  "demo_platform = \<lparr> url_protocol = demo_protocol, has_vibrate = True \<rparr>"

definition silent_platform :: platform where
  "silent_platform = \<lparr> url_protocol = demo_protocol, has_vibrate = False \<rparr>"

definition fresh_session :: controller where
  "fresh_session = constructor\<lparr>stream := Some 1, cameraActive := True\<rparr>"

definition blank_frame :: frame where
  "blank_frame = \<lparr> ready = False, decoded = None \<rparr>"

definition code_frame :: "string \<Rightarrow> frame" where
  "code_frame d = \<lparr> ready = True, decoded = Some d \<rparr>"

text \<open>
  Sample inputs for the worker: a worker without stores, a page response and a 404
  response, both same-origin.
\<close>

definition new_worker :: worker where
  "new_worker = \<lparr> caches = [], skipWaitingCalled = False, clientsClaimed = False \<rparr>"

definition page_response :: response where
  "page_response = \<lparr> status = 200, statusText = ''OK'', rtype = Basic, body = Content ''<html></html>'' \<rparr>"

definition not_found_response :: response where
  "not_found_response = \<lparr> status = 404, statusText = ''Not Found'', rtype = Basic, body = Content ''not found'' \<rparr>"

text \<open>
  Sample networks: one that answers every request with a same-origin 200 response and
  whose cache, like \<open>Cache.put\<close>, refuses requests whose method is not GET; the same
  with one asset unreachable; one that is offline; one that answers 404; one whose
  storage lookup fails.
\<close>

definition working_network :: network where
  "working_network = \<lparr> fetch = (\<lambda>q. Inr page_response), open_rejects = None,
     match_rejects = None,
     put_rejects = (\<lambda>q. if req_method q = ''GET'' then None else Some (JsError ''TypeError'')) \<rparr>"

definition icon_missing_network :: network where
  "icon_missing_network = working_network \<lparr> fetch :=
     (\<lambda>q. if url q = ''/PWA-QR-Reader/icon-512.png'' then Inl (JsError ''Failed to fetch'')
          else Inr page_response) \<rparr>"

definition offline_network :: network where
  "offline_network = working_network \<lparr> fetch := (\<lambda>q. Inl (JsError ''Failed to fetch'')) \<rparr>"

definition missing_page_network :: network where
  "missing_page_network = working_network \<lparr> fetch := (\<lambda>q. Inr not_found_response) \<rparr>"

definition broken_storage_network :: network where
  "broken_storage_network = working_network \<lparr> match_rejects := Some (JsError ''UnknownError'') \<rparr>"

text \<open>
  Sample requests: a POST request, a page asset outside the URL list, and the decoder
  library.
\<close>

definition post_request :: request where
  "post_request = \<lparr> url = ''/PWA-QR-Reader/report'', req_method = ''POST'' \<rparr>"

definition extra_request :: request where
  "extra_request = get_request ''/PWA-QR-Reader/extra.js''"

definition jsqr_request :: request where
  "jsqr_request = get_request ''https://cdn.jsdelivr.net/npm/jsqr@1.4.0/dist/jsQR.min.js''"

section \<open>Properties of the controller\<close>

subsection \<open>Escaping and rendering\<close>

lemma amp_headed_iff:
  "amp_headed out = (\<forall>i < length out. out ! i = CHR ''&'' \<longrightarrow> (\<exists>e \<in> set entities. prefix e (drop i out)))"
  by (auto simp: amp_headed_def)

lemma replace_match_cases:
  "c \<in> set escape_class \<Longrightarrow> replace_match c \<in> set entities"
  by (auto simp: escape_class_def replace_match_def escape_map_def entities_def)

lemma entity_shape:
  "e \<in> set entities \<Longrightarrow> \<exists>t. e = CHR ''&'' # t \<and> CHR ''&'' \<notin> set t \<and> raw_free e"
  by (auto simp: entities_def escape_map_def raw_free_def)

lemma raw_free_append: "raw_free (a @ b) = (raw_free a \<and> raw_free b)"
  by (auto simp: raw_free_def)

lemma amp_headed_Cons_other:
  assumes "c \<noteq> CHR ''&''" "amp_headed rest"
  shows "amp_headed (c # rest)"
  unfolding amp_headed_iff
proof (intro allI impI)
  fix i assume i: "i < length (c # rest)" and a: "(c # rest) ! i = CHR ''&''"
  from a assms(1) obtain j where j: "i = Suc j" by (cases i) auto
  with i a assms(2) show "\<exists>e\<in>set entities. prefix e (drop i (c # rest))"
    by (auto simp: amp_headed_iff)
qed

lemma amp_headed_append_tail:
  assumes "CHR ''&'' \<notin> set t" "amp_headed rest"
  shows "\<forall>i < length (t @ rest). (t @ rest) ! i = CHR ''&'' \<longrightarrow> (\<exists>e \<in> set entities. prefix e (drop i (t @ rest)))"
  using assms
proof (induction t)
  case Nil then show ?case by (simp add: amp_headed_iff)
next
  case (Cons c t)
  then have "amp_headed (t @ rest)" by (simp add: amp_headed_iff)
  with Cons.prems have "amp_headed (c # t @ rest)" by (intro amp_headed_Cons_other) auto
  then show ?case by (simp add: amp_headed_iff)
qed

lemma amp_headed_entity:
  assumes "e \<in> set entities" "amp_headed rest"
  shows "amp_headed (e @ rest)"
proof -
  from entity_shape[OF assms(1)] obtain t where e: "e = CHR ''&'' # t" and t: "CHR ''&'' \<notin> set t" by blast
  have tail: "amp_headed (t @ rest)" using amp_headed_append_tail[OF t assms(2)] by (simp add: amp_headed_iff)
  show ?thesis unfolding amp_headed_iff
  proof (intro allI impI)
    fix i assume i: "i < length (e @ rest)" and a: "(e @ rest) ! i = CHR ''&''"
    show "\<exists>x\<in>set entities. prefix x (drop i (e @ rest))"
    proof (cases i)
      case 0 with assms(1) show ?thesis by (auto intro!: bexI[of _ e])
    next
      case (Suc j)
      with i a e tail show ?thesis by (auto simp: amp_headed_iff)
    qed
  qed
qed

lemma escapeHtml_Nil: "escapeHtml [] = []" by (simp add: escapeHtml_def)

lemma escapeHtml_Cons: "escapeHtml (c # cs) = (if c \<in> set escape_class then replace_match c else [c]) @ escapeHtml cs"
  by (simp add: escapeHtml_def)

lemma escapeHtml_amp_headed: "amp_headed (escapeHtml t)"
proof (induction t)
  case Nil show ?case by (simp add: escapeHtml_Nil amp_headed_iff)
next
  case (Cons c cs)
  show ?case
  proof (cases "c \<in> set escape_class")
    case True
    then show ?thesis using amp_headed_entity[OF replace_match_cases[OF True] Cons.IH]
      by (simp add: escapeHtml_Cons)
  next
    case False
    then have "c \<noteq> CHR ''&''" by (auto simp: escape_class_def)
    then show ?thesis using False amp_headed_Cons_other[OF _ Cons.IH] by (simp add: escapeHtml_Cons)
  qed
qed

lemma escapeHtml_raw_free: "raw_free (escapeHtml t)"
proof (induction t)
  case Nil show ?case by (simp add: escapeHtml_Nil raw_free_def)
next
  case (Cons c cs)
  show ?case
  proof (cases "c \<in> set escape_class")
    case True
    from entity_shape[OF replace_match_cases[OF True]] have "raw_free (replace_match c)" by blast
    with True Cons.IH show ?thesis by (simp add: escapeHtml_Cons raw_free_append)
  next
    case False
    then have "raw_free [c]" by (auto simp: escape_class_def raw_free_def)
    with False Cons.IH show ?thesis by (simp add: escapeHtml_Cons raw_free_append del: append.simps)
  qed
qed

lemma link_ne_text: "link_html d \<noteq> text_html d'"
  by (simp add: link_html_def text_html_def)

lemma isValidUrl_iff:
  "isValidUrl P data = (url_protocol P data = Some ''http:'' \<or> url_protocol P data = Some ''https:'')"
  by (cases "url_protocol P data") (auto simp: isValidUrl_def)

text \<open>
  Claim C10. \<open>displayResult\<close> writes the link markup exactly when the payload parses as
  an absolute URL whose protocol is \<open>http:\<close> or \<open>https:\<close> (so a payload with any other
  scheme, such as \<open>javascript:\<close>, is never a link); in every other case it writes the
  paragraph markup around \<open>escapeHtml data\<close>. For every text, the output of \<open>escapeHtml\<close>
  contains none of \<open><\<close>, \<open>>\<close>, the double quote and the single quote, and every \<open>&\<close> in
  it is the head of one of the five entities.
\<close>

theorem displayResult_link_only_http:
  "displayResult P data =
     [SetResultHtml (if url_protocol P data = Some ''http:'' \<or> url_protocol P data = Some ''https:''
                     then link_html data else text_html data),
      AddHasResultClass, ShowCopyButton]
   \<and> link_html data \<noteq> text_html data
   \<and> text_html data =
       ''<p class='' @ [CHR 0x22] @ ''result-text'' @ [CHR 0x22] @ ''>'' @ escapeHtml data @ ''</p>''
   \<and> raw_free (escapeHtml t) \<and> amp_headed (escapeHtml t)"
proof -
  have "displayResult P data =
     [SetResultHtml (if url_protocol P data = Some ''http:'' \<or> url_protocol P data = Some ''https:''
                     then link_html data else text_html data),
      AddHasResultClass, ShowCopyButton]"
    by (simp only: displayResult_def Let_def isValidUrl_iff)
  then show ?thesis
    using link_ne_text [of data data] escapeHtml_raw_free [of t] escapeHtml_amp_headed [of t]
    by (simp add: text_html_def)
qed

text \<open>
  C10 at concrete payloads: a \<open>javascript:\<close> URL is rendered as escaped text, an
  \<open>https:\<close> URL as a link, and markup is escaped.
\<close>

theorem displayResult_link_only_http_witness:
  "displayResult demo_platform ''javascript:alert(1)'' =
     [SetResultHtml (text_html ''javascript:alert(1)''), AddHasResultClass, ShowCopyButton]
   \<and> displayResult demo_platform ''https://example.com/'' =
     [SetResultHtml (link_html ''https://example.com/''), AddHasResultClass, ShowCopyButton]
   \<and> escapeHtml ''<b>T&J</b>'' = ''&lt;b&gt;T&amp;J&lt;/b&gt;''
   \<and> raw_free (escapeHtml ''<b>T&J</b>'') \<and> amp_headed (escapeHtml ''<b>T&J</b>'')"
proof -
  have p: "url_protocol demo_platform ''javascript:alert(1)'' = Some ''javascript:''"
    "url_protocol demo_platform ''https://example.com/'' = Some ''https:''"
    by (simp_all add: demo_platform_def demo_protocol_def)
  have e: "escapeHtml ''<b>T&J</b>'' = ''&lt;b&gt;T&amp;J&lt;/b&gt;''"
    by (simp add: escapeHtml_def escape_class_def replace_match_def escape_map_def)
  from displayResult_link_only_http [of demo_platform "''javascript:alert(1)''" "''<b>T&J</b>''"]
    displayResult_link_only_http [of demo_platform "''https://example.com/''" "''<b>T&J</b>''"]
    p e
  show ?thesis by simp
qed

subsection \<open>De-duplication of payloads\<close>

lemma handleQRCode_fst:
  "fst (handleQRCode P s data) = (if data = lastResult s then s else s\<lparr>lastResult := data, statusTimeout := True\<rparr>)"
  by (simp add: handleQRCode_def showStatus_def Let_def)

lemma handleQRCode_results:
  "length (filter is_result (snd (handleQRCode P s data))) = (if data = lastResult s then 0 else 1)"
  by (simp add: handleQRCode_def showStatus_def displayResult_def Let_def)

lemma handleQRCode_vibrate:
  "filter is_vibrate (snd (handleQRCode P s data)) =
     (if data \<noteq> lastResult s \<and> has_vibrate P then [Vibrate 200] else [])"
  by (simp add: handleQRCode_def showStatus_def displayResult_def Let_def)

lemma handleQRCode_lastResult: "lastResult (fst (handleQRCode P s data)) = data"
  by (simp add: handleQRCode_fst)

lemma deliver_results:
  "length (filter is_result (snd (deliver P s ds))) = changes (lastResult s) ds"
proof (induction ds arbitrary: s)
  case Nil show ?case by simp
next
  case (Cons d ds)
  have "length (filter is_result (snd (deliver P s (d # ds)))) =
        length (filter is_result (snd (handleQRCode P s d)))
        + length (filter is_result (snd (deliver P (fst (handleQRCode P s d)) ds)))"
    by (simp add: split_beta Let_def)
  also have "\<dots> = (if d = lastResult s then 0 else 1) + changes d ds"
    by (simp only: handleQRCode_results Cons.IH handleQRCode_lastResult)
  finally show ?case by simp
qed

lemma changes_same: "changes d (replicate n d) = 0"
  by (induction n) auto

lemma changes_replicate: "changes p (replicate n d) \<le> 1"
  by (cases n) (auto simp: changes_same)

lemma changes_snoc: "changes p (xs @ [y]) = changes p xs + (if y = last (p # xs) then 0 else 1)"
  by (induction xs arbitrary: p) auto

text \<open>
  Claim C1, amended. A payload equal to \<open>lastResult\<close> produces no result event. A payload
  that differs from it produces exactly one result event and becomes \<open>lastResult\<close>; it
  requests a vibration of 200 ms if the platform has \<open>navigator.vibrate\<close>, and none
  otherwise. Over a sequence of payloads the number of result events is the number of
  payloads that differ from their predecessor, so a run of identical payloads produces
  at most one, and a payload after the run produces one more exactly if it differs.
\<close>

theorem handleQRCode_dedup:
  assumes "data \<noteq> lastResult s"
  shows "filter is_result (snd (handleQRCode P s (lastResult s))) = []
    \<and> length (filter is_result (snd (handleQRCode P s data))) = 1
    \<and> lastResult (fst (handleQRCode P s data)) = data
    \<and> filter is_vibrate (snd (handleQRCode P s data)) = (if has_vibrate P then [Vibrate 200] else [])
    \<and> length (filter is_result (snd (deliver P s ds))) = changes (lastResult s) ds
    \<and> length (filter is_result (snd (deliver P s (replicate n d)))) \<le> 1
    \<and> length (filter is_result (snd (deliver P s (replicate (Suc n) d @ [d'])))) =
        length (filter is_result (snd (deliver P s (replicate (Suc n) d)))) + (if d' = d then 0 else 1)"
proof -
  have 1: "filter is_result (snd (handleQRCode P s (lastResult s))) = []"
    by (simp add: handleQRCode_def)
  have 2: "length (filter is_result (snd (handleQRCode P s data))) = 1"
    using assms by (simp add: handleQRCode_results)
  have 4: "filter is_vibrate (snd (handleQRCode P s data)) = (if has_vibrate P then [Vibrate 200] else [])"
    using assms by (simp add: handleQRCode_vibrate)
  have 6: "length (filter is_result (snd (deliver P s (replicate n d)))) \<le> 1"
    by (simp only: deliver_results changes_replicate)
  have 7: "length (filter is_result (snd (deliver P s (replicate (Suc n) d @ [d'])))) =
        length (filter is_result (snd (deliver P s (replicate (Suc n) d)))) + (if d' = d then 0 else 1)"
    by (simp only: deliver_results changes_snoc) simp
  show ?thesis using 1 2 4 6 7 handleQRCode_lastResult deliver_results by blast
qed

text \<open>
  C1 at a concrete sequence: three reads of the same code, another code, the first one
  again give three result events.
\<close>

theorem handleQRCode_dedup_witness:
  "''abc'' \<noteq> lastResult constructor
    \<and> length (filter is_result (snd (handleQRCode demo_platform constructor ''abc''))) = 1
    \<and> lastResult (fst (handleQRCode demo_platform constructor ''abc'')) = ''abc''
    \<and> filter is_vibrate (snd (handleQRCode demo_platform constructor ''abc'')) = [Vibrate 200]
    \<and> length (filter is_result (snd (deliver demo_platform constructor [''abc'', ''abc'', ''abc'', ''xyz'', ''abc'']))) = 3"
  using handleQRCode_dedup [of "''abc''" constructor demo_platform "[''abc'', ''abc'', ''abc'', ''xyz'', ''abc'']" 0 "''abc''" "''abc''"]
  by (simp add: constructor_def demo_platform_def)

text \<open>
  Claim C1 as stated says that a new payload always requests a haptic pulse. On a
  platform without \<open>navigator.vibrate\<close> the guard of line 212 skips the call: a new
  payload is handled and no vibration is requested.
\<close>

theorem handleQRCode_vibrate_counterexample:
  "''abc'' \<noteq> lastResult constructor
   \<and> filter is_vibrate (snd (handleQRCode silent_platform constructor ''abc'')) = []"
  by (simp add: constructor_def silent_platform_def handleQRCode_def showStatus_def displayResult_def Let_def)

text \<open>
  Claim C9. When the payload equals \<open>lastResult\<close>, \<open>handleQRCode\<close> returns the state it
  was given, with every field as it was, and has no effect at all: nothing is rendered,
  no status is shown, no vibration is requested.
\<close>

theorem handleQRCode_duplicate_unchanged:
  "data = lastResult s \<Longrightarrow> handleQRCode P s data = (s, [])"
  by (simp add: handleQRCode_def)

text \<open>
  C9 at a concrete state whose last result is the payload read again.
\<close>

theorem handleQRCode_duplicate_unchanged_witness:
  "''abc'' = lastResult (constructor\<lparr>lastResult := ''abc''\<rparr>)
   \<and> handleQRCode demo_platform (constructor\<lparr>lastResult := ''abc''\<rparr>) ''abc'' = (constructor\<lparr>lastResult := ''abc''\<rparr>, [])"
  using handleQRCode_duplicate_unchanged [of "''abc''" "constructor\<lparr>lastResult := ''abc''\<rparr>" demo_platform]
  by simp

subsection \<open>Switching the camera\<close>

lemma other_facing_twice: "other_facing (other_facing f) = f"
  by (cases f) (simp_all add: other_facing_def)

lemma switchCamera_failed:
  assumes "cameraActive s"
  shows "switchCamera s (Inl e) =
     (Inr (),
      s\<lparr>stream := None, cameraActive := False, scanning := False, statusTimeout := True\<rparr>,
      snd (stopCamera (s\<lparr>facingMode := other_facing (facingMode s)\<rparr>))
      @ [GetUserMedia (other_facing (facingMode s))]
      @ snd (showStatus (fst (stopCamera s)) MsgSwitchFailed ErrorType)
      @ [ConsoleError e])"
  using assms
  by (cases "stream s")
     (simp_all add: switchCamera_def stopCamera_def stopScanning_def startCamera_def
        showStatus_def other_facing_twice Let_def)

lemma switchCamera_failed_effects:
  assumes "cameraActive s"
  shows "snd (snd (switchCamera s (Inl e))) =
     (case stream s of Some h \<Rightarrow> [StopTracks h] | None \<Rightarrow> [])
     @ [SetSrcObject None, GetUserMedia (other_facing (facingMode s))]
     @ (if statusTimeout s then [ClearTimeout] else [])
     @ [SetStatus MsgSwitchFailed ErrorType, SetTimeout 3000, ConsoleError e]"
  by (cases "stream s")
     (simp_all add: switchCamera_failed [OF assms] stopCamera_def stopScanning_def showStatus_def)

text \<open>
  Claim C2. If the camera is active and \<open>getUserMedia\<close> rejects the request for the
  other facing, then \<open>switchCamera\<close> returns normally, the facing is the one before the
  call, the camera is not active, scanning is off (a later call of \<open>scan\<close> does nothing
  and does not reschedule itself), the request was made with the flipped facing, and the
  failure status was shown as an error. No media handle is left live: the tracks of the
  stream the session held are stopped and the video element is detached from it before
  the new request is made, the controller holds no stream afterwards, and nothing is
  attached to the video element again. The effects of the call are exactly these, in
  this order: stop the tracks of the held stream, detach the video element, request the
  flipped facing, show the failure status, log the error.
\<close>

theorem switchCamera_failure_reverts:
  assumes "cameraActive s"
  shows "fst (switchCamera s (Inl e)) = Inr ()
    \<and> facingMode (fst (snd (switchCamera s (Inl e)))) = facingMode s
    \<and> stream (fst (snd (switchCamera s (Inl e)))) = None
    \<and> \<not> cameraActive (fst (snd (switchCamera s (Inl e))))
    \<and> \<not> scanning (fst (snd (switchCamera s (Inl e))))
    \<and> scan P (fst (snd (switchCamera s (Inl e)))) f = (fst (snd (switchCamera s (Inl e))), [])
    \<and> GetUserMedia (other_facing (facingMode s)) \<in> set (snd (snd (switchCamera s (Inl e))))
    \<and> SetStatus MsgSwitchFailed ErrorType \<in> set (snd (snd (switchCamera s (Inl e))))
    \<and> (stream s = Some h \<longrightarrow> StopTracks h \<in> set (snd (snd (switchCamera s (Inl e)))))
    \<and> SetSrcObject None \<in> set (snd (snd (switchCamera s (Inl e))))
    \<and> SetSrcObject (Some h') \<notin> set (snd (snd (switchCamera s (Inl e))))
    \<and> snd (snd (switchCamera s (Inl e))) =
        (case stream s of Some h \<Rightarrow> [StopTracks h] | None \<Rightarrow> [])
        @ [SetSrcObject None, GetUserMedia (other_facing (facingMode s))]
        @ (if statusTimeout s then [ClearTimeout] else [])
        @ [SetStatus MsgSwitchFailed ErrorType, SetTimeout 3000, ConsoleError e]"
proof -
  have state: "fst (switchCamera s (Inl e)) = Inr ()
    \<and> facingMode (fst (snd (switchCamera s (Inl e)))) = facingMode s
    \<and> stream (fst (snd (switchCamera s (Inl e)))) = None
    \<and> \<not> cameraActive (fst (snd (switchCamera s (Inl e))))
    \<and> \<not> scanning (fst (snd (switchCamera s (Inl e))))
    \<and> scan P (fst (snd (switchCamera s (Inl e)))) f = (fst (snd (switchCamera s (Inl e))), [])"
    by (simp add: switchCamera_failed [OF assms] scan_def)
  note out = switchCamera_failed_effects [OF assms, of e]
  have members: "GetUserMedia (other_facing (facingMode s)) \<in> set (snd (snd (switchCamera s (Inl e))))
    \<and> SetStatus MsgSwitchFailed ErrorType \<in> set (snd (snd (switchCamera s (Inl e))))
    \<and> (stream s = Some h \<longrightarrow> StopTracks h \<in> set (snd (snd (switchCamera s (Inl e)))))
    \<and> SetSrcObject None \<in> set (snd (snd (switchCamera s (Inl e))))
    \<and> SetSrcObject (Some h') \<notin> set (snd (snd (switchCamera s (Inl e))))"
    unfolding out by (cases "stream s") simp_all
  from state members out show ?thesis by blast
qed

text \<open>
  C2 at a concrete state: an active session on the back camera that holds stream 1, no
  front camera found.
\<close>

theorem switchCamera_failure_reverts_witness:
  "cameraActive fresh_session
    \<and> fst (switchCamera fresh_session (Inl (JsError ''NotFoundError''))) = Inr ()
    \<and> facingMode (fst (snd (switchCamera fresh_session (Inl (JsError ''NotFoundError''))))) = Environment
    \<and> stream (fst (snd (switchCamera fresh_session (Inl (JsError ''NotFoundError''))))) = None
    \<and> \<not> cameraActive (fst (snd (switchCamera fresh_session (Inl (JsError ''NotFoundError'')))))
    \<and> \<not> scanning (fst (snd (switchCamera fresh_session (Inl (JsError ''NotFoundError'')))))
    \<and> GetUserMedia User \<in> set (snd (snd (switchCamera fresh_session (Inl (JsError ''NotFoundError'')))))
    \<and> SetStatus MsgSwitchFailed ErrorType \<in> set (snd (snd (switchCamera fresh_session (Inl (JsError ''NotFoundError'')))))
    \<and> stream fresh_session = Some 1
    \<and> StopTracks 1 \<in> set (snd (snd (switchCamera fresh_session (Inl (JsError ''NotFoundError'')))))
    \<and> SetSrcObject None \<in> set (snd (snd (switchCamera fresh_session (Inl (JsError ''NotFoundError'')))))
    \<and> SetSrcObject (Some 1) \<notin> set (snd (snd (switchCamera fresh_session (Inl (JsError ''NotFoundError'')))))
    \<and> snd (snd (switchCamera fresh_session (Inl (JsError ''NotFoundError'')))) =
        [StopTracks 1, SetSrcObject None, GetUserMedia User,
         SetStatus MsgSwitchFailed ErrorType, SetTimeout 3000, ConsoleError (JsError ''NotFoundError'')]"
  using switchCamera_failure_reverts
    [of fresh_session "JsError ''NotFoundError''" demo_platform blank_frame 1 1]
  by (simp add: fresh_session_def constructor_def other_facing_def)

subsection \<open>The scan loop\<close>

text \<open>
  A session is \<open>startScanning\<close> followed by the ticks the loop schedules: the run
  \<open>ticks P (s\<lparr>scanning := True\<rparr>) (f # fs)\<close> is the call of \<open>startScanning\<close> on the frame
  \<open>f\<close>, which is the first tick, followed by the ticks on \<open>fs\<close>.
\<close>

lemma handleQRCode_keeps:
  "scanning (fst (handleQRCode P s d)) = scanning s
   \<and> cameraActive (fst (handleQRCode P s d)) = cameraActive s
   \<and> frameCount (fst (handleQRCode P s d)) = frameCount s"
  by (simp add: handleQRCode_fst)

lemma scan_active:
  assumes "scanning s" "cameraActive s"
  shows "scanning (fst (scan P s f)) \<and> cameraActive (fst (scan P s f))
    \<and> frameCount (fst (scan P s f)) = frameCount s + 1
    \<and> RequestAnimationFrame \<in> set (snd (scan P s f))
    \<and> reschedules (snd (scan P s f))
    \<and> decode_work (snd (scan P s f)) = ((frameCount s + 1) mod 3 = 0 \<and> ready f)
    \<and> (\<not> decode_work (snd (scan P s f)) \<longrightarrow> no_decode_work (snd (scan P s f)))"
  using assms
  by (cases "decoded f")
     (auto simp: scan_def Let_def split_beta handleQRCode_keeps reschedules_def decode_work_def
        decode_effects_def no_decode_work_def)

lemma ticks_after_startScanning:
  "ticks P (s\<lparr>scanning := True\<rparr>) (f # fs) =
     (let (s1, o1) = startScanning P s f
      in if RequestAnimationFrame \<in> set o1
         then (let (s2, os) = ticks P s1 fs in (s2, o1 # os))
         else (s1, [o1]))"
  by (simp add: startScanning_def)

lemma ticks_active:
  assumes "scanning s" "cameraActive s"
  shows "length (snd (ticks P s fs)) = length fs
    \<and> (\<forall>k < length fs.
          reschedules (snd (ticks P s fs) ! k)
        \<and> decode_work (snd (ticks P s fs) ! k) = ((frameCount s + k + 1) mod 3 = 0 \<and> ready (fs ! k))
        \<and> (\<not> decode_work (snd (ticks P s fs) ! k) \<longrightarrow> no_decode_work (snd (ticks P s fs) ! k)))"
  using assms
proof (induction fs arbitrary: s)
  case Nil show ?case by simp
next
  case (Cons f fs)
  let ?s1 = "fst (scan P s f)" and ?o1 = "snd (scan P s f)"
  note a = scan_active [OF Cons.prems, of P f]
  have unfold: "snd (ticks P s (f # fs)) = ?o1 # snd (ticks P ?s1 fs)"
    using a by (simp add: split_beta Let_def)
  from a have ih: "length (snd (ticks P ?s1 fs)) = length fs
    \<and> (\<forall>k < length fs.
          reschedules (snd (ticks P ?s1 fs) ! k)
        \<and> decode_work (snd (ticks P ?s1 fs) ! k) = ((frameCount ?s1 + k + 1) mod 3 = 0 \<and> ready (fs ! k))
        \<and> (\<not> decode_work (snd (ticks P ?s1 fs) ! k) \<longrightarrow> no_decode_work (snd (ticks P ?s1 fs) ! k)))"
    by (intro Cons.IH) simp_all
  show ?case
  proof (intro conjI allI impI)
    show "length (snd (ticks P s (f # fs))) = length (f # fs)" using ih unfold by simp
  next
    fix k assume k: "k < length (f # fs)"
    show "reschedules (snd (ticks P s (f # fs)) ! k)"
      using k a ih unfold by (cases k) auto
    show "decode_work (snd (ticks P s (f # fs)) ! k) = ((frameCount s + k + 1) mod 3 = 0 \<and> ready ((f # fs) ! k))"
      using k a ih unfold by (cases k) auto
    assume "\<not> decode_work (snd (ticks P s (f # fs)) ! k)"
    then show "no_decode_work (snd (ticks P s (f # fs)) ! k)"
      using k a ih unfold by (cases k) auto
  qed
qed

text \<open>
  Claim C3, amended. \<open>startScanning\<close> sets \<open>scanning\<close> to true and does not reset
  \<open>frameCount\<close>: the counter keeps the value of the session before and is incremented by
  the first call of \<open>scan\<close>, which \<open>startScanning\<close> makes at once and which counts only
  if the camera is active. The counter is 0 only in a newly constructed controller.
\<close>

theorem startScanning_keeps_count:
  "scanning (fst (startScanning P s f))
   \<and> frameCount (fst (startScanning P s f)) = frameCount s + (if cameraActive s then 1 else 0)
   \<and> frameCount constructor = 0"
proof (cases "cameraActive s")
  case True
  then show ?thesis
    using scan_active [of "s\<lparr>scanning := True\<rparr>" P f]
    by (simp add: startScanning_def constructor_def)
next
  case False
  then show ?thesis by (simp add: startScanning_def scan_def constructor_def)
qed

text \<open>
  C3 at a concrete state: a session that starts with the counter at 5 continues at 6.
\<close>

theorem startScanning_keeps_count_witness:
  "scanning (fst (startScanning demo_platform (fresh_session\<lparr>frameCount := 5\<rparr>) blank_frame))
   \<and> frameCount (fst (startScanning demo_platform (fresh_session\<lparr>frameCount := 5\<rparr>) blank_frame)) = 6"
  using startScanning_keeps_count [of demo_platform "fresh_session\<lparr>frameCount := 5\<rparr>" blank_frame]
  by (simp add: fresh_session_def constructor_def)

text \<open>
  Claim C3 as stated says that the counter is 0 when a session starts. No assignment
  in the source resets it: a controller whose counter is 5 from an earlier session
  starts the next session with 6.
\<close>

theorem startScanning_reset_counterexample:
  "frameCount (fresh_session\<lparr>frameCount := 5\<rparr>) = 5
   \<and> frameCount (fst (startScanning demo_platform (fresh_session\<lparr>frameCount := 5\<rparr>) blank_frame)) = 6"
  by (simp add: startScanning_def scan_def fresh_session_def constructor_def blank_frame_def Let_def)

lemma upt_0_9: "[0..<9] = [0, 1, 2, 3, 4, 5, 6, 7, 8::nat]"
  by code_simp

lemma work_ticks_active:
  assumes "scanning s" "cameraActive s"
  shows "work_ticks (snd (ticks P s fs)) =
    map Suc (filter (\<lambda>k. (frameCount s + k + 1) mod 3 = 0 \<and> ready (fs ! k)) [0..<length fs])"
proof -
  note t = ticks_active [OF assms, of P fs]
  have "filter (\<lambda>k. decode_work (snd (ticks P s fs) ! k)) [0..<length fs] =
        filter (\<lambda>k. (frameCount s + k + 1) mod 3 = 0 \<and> ready (fs ! k)) [0..<length fs]"
    using t by (intro filter_cong) auto
  then show ?thesis using t by (simp add: work_ticks_def)
qed

text \<open>
  Claim C4, amended. In a started session with an active camera, each of nine
  consecutive ticks runs and reschedules the loop. Decode work (draw the frame, read the
  pixels, call the decoder) is done on tick \<open>k + 1\<close> exactly if \<open>frameCount + k + 1\<close> is a
  multiple of 3 and the video has enough data on that tick. If the counter is 0 at the
  start, as in the first session of a controller, these are the ticks among 3, 6 and 9
  on which the video has enough data, so there are three of them if it has on all three
  and fewer otherwise. A tick without decode work does none of its three steps.
\<close>

theorem scan_sampling_nine_ticks:
  assumes "cameraActive s" and "length fs = 9"
  shows "length (snd (ticks P (s\<lparr>scanning := True\<rparr>) fs)) = 9
    \<and> list_all reschedules (snd (ticks P (s\<lparr>scanning := True\<rparr>) fs))
    \<and> work_ticks (snd (ticks P (s\<lparr>scanning := True\<rparr>) fs)) =
        map Suc (filter (\<lambda>k. (frameCount s + k + 1) mod 3 = 0 \<and> ready (fs ! k)) [0..<9])
    \<and> (frameCount s = 0 \<longrightarrow>
         work_ticks (snd (ticks P (s\<lparr>scanning := True\<rparr>) fs)) = filter (\<lambda>k. ready (fs ! (k - 1))) [3, 6, 9])
    \<and> (\<forall>k < 9. \<not> decode_work (snd (ticks P (s\<lparr>scanning := True\<rparr>) fs) ! k)
          \<longrightarrow> no_decode_work (snd (ticks P (s\<lparr>scanning := True\<rparr>) fs) ! k))"
proof -
  let ?s = "s\<lparr>scanning := True\<rparr>"
  let ?outs = "snd (ticks P ?s fs)"
  have act: "scanning ?s" "cameraActive ?s" using assms(1) by simp_all
  note t = ticks_active [OF act, of P fs]
  have len: "length ?outs = 9" using t assms(2) by simp
  have all: "list_all reschedules ?outs"
    using t assms(2) by (simp add: list_all_length)
  have off: "\<forall>k < 9. \<not> decode_work (?outs ! k) \<longrightarrow> no_decode_work (?outs ! k)"
    using t assms(2) by simp
  have w: "work_ticks ?outs =
      map Suc (filter (\<lambda>k. (frameCount s + k + 1) mod 3 = 0 \<and> ready (fs ! k)) [0..<9])"
    using work_ticks_active [OF act, of P fs] assms(2) by simp
  have z: "work_ticks ?outs = filter (\<lambda>k. ready (fs ! (k - 1))) [3, 6, 9]" if "frameCount s = 0"
    unfolding w by (simp add: that upt_0_9)
  show ?thesis using len all w z off by blast
qed

text \<open>
  C4 at a concrete run: nine frames that all show a code give decode work on ticks 3, 6
  and 9.
\<close>

theorem scan_sampling_nine_ticks_witness:
  "cameraActive fresh_session \<and> frameCount fresh_session = 0
    \<and> length (replicate 9 (code_frame ''abc'')) = 9
    \<and> length (snd (ticks demo_platform (fresh_session\<lparr>scanning := True\<rparr>) (replicate 9 (code_frame ''abc'')))) = 9
    \<and> work_ticks (snd (ticks demo_platform (fresh_session\<lparr>scanning := True\<rparr>) (replicate 9 (code_frame ''abc'')))) = [3, 6, 9]"
proof -
  have h1: "cameraActive fresh_session" by (simp add: fresh_session_def)
  have h2: "frameCount fresh_session = 0" by (simp add: fresh_session_def constructor_def)
  have h3: "length (replicate 9 (code_frame ''abc'')) = 9" by simp
  have r: "filter (\<lambda>k. ready (replicate 9 (code_frame ''abc'') ! (k - 1))) [3, 6, 9] = [3, 6, 9]"
    by (simp add: code_frame_def)
  note t = scan_sampling_nine_ticks [OF h1 h3, of demo_platform]
  from t have a: "length (snd (ticks demo_platform (fresh_session\<lparr>scanning := True\<rparr>) (replicate 9 (code_frame ''abc'')))) = 9"
    by blast
  from t h2 have "work_ticks (snd (ticks demo_platform (fresh_session\<lparr>scanning := True\<rparr>) (replicate 9 (code_frame ''abc'')))) =
      filter (\<lambda>k. ready (replicate 9 (code_frame ''abc'') ! (k - 1))) [3, 6, 9]"
    by blast
  then have b: "work_ticks (snd (ticks demo_platform (fresh_session\<lparr>scanning := True\<rparr>) (replicate 9 (code_frame ''abc'')))) = [3, 6, 9]"
    by (simp only: r)
  from h1 h2 h3 a b show ?thesis by blast
qed

text \<open>
  Claim C4 as stated says that decode work is done exactly three times in nine ticks.
  The guard of line 165 skips it while the video element has not enough data: in a new
  session whose first nine frames are not ready, all nine ticks run and none does
  decode work.
\<close>

theorem scan_sampling_counterexample:
  "cameraActive fresh_session \<and> frameCount fresh_session = 0
   \<and> length (snd (ticks demo_platform (fresh_session\<lparr>scanning := True\<rparr>) (replicate 9 blank_frame))) = 9
   \<and> work_ticks (snd (ticks demo_platform (fresh_session\<lparr>scanning := True\<rparr>) (replicate 9 blank_frame))) = []"
proof -
  have h1: "cameraActive fresh_session" by (simp add: fresh_session_def)
  have h2: "frameCount fresh_session = 0" by (simp add: fresh_session_def constructor_def)
  have "work_ticks (snd (ticks demo_platform (fresh_session\<lparr>scanning := True\<rparr>) (replicate 9 blank_frame))) =
     map Suc (filter (\<lambda>k. (frameCount (fresh_session\<lparr>scanning := True\<rparr>) + k + 1) mod 3 = 0 \<and> ready (replicate 9 blank_frame ! k)) [0..<length (replicate 9 blank_frame)])"
    using h1 by (intro work_ticks_active) simp_all
  also have "\<dots> = []"
    by (simp add: blank_frame_def filter_empty_conv)
  finally have w: "work_ticks (snd (ticks demo_platform (fresh_session\<lparr>scanning := True\<rparr>) (replicate 9 blank_frame))) = []" .
  have "length (snd (ticks demo_platform (fresh_session\<lparr>scanning := True\<rparr>) (replicate 9 blank_frame))) =
      length (replicate 9 blank_frame)"
    using ticks_active [of "fresh_session\<lparr>scanning := True\<rparr>" demo_platform "replicate 9 blank_frame"] h1
    by simp
  then show ?thesis using h1 h2 w by simp
qed

section \<open>Properties of the service worker\<close>

subsection \<open>Activation\<close>

lemma delete_old_fst:
  "fst (delete_old cn names cs) = filter (\<lambda>p. fst p = cn \<or> fst p \<notin> set names) cs"
proof (induction names arbitrary: cs)
  case Nil show ?case by simp
next
  case (Cons name rest)
  show ?case
  proof (cases "name = cn")
    case True
    then show ?thesis by (auto simp: Cons.IH intro: filter_cong)
  next
    case False
    then show ?thesis
      by (auto simp: Cons.IH split_beta caches_delete_def AList.delete_eq intro!: filter_cong)
  qed
qed

lemma delete_old_snd:
  "deleted (snd (delete_old cn names cs)) = filter (\<lambda>n. n \<noteq> cn) names"
  by (induction names arbitrary: cs) (auto simp: split_beta)

lemma deleted_append: "deleted (a @ b) = deleted a @ deleted b"
  by (induction a rule: deleted.induct) auto

lemma onActivate_caches:
  "caches (fst (snd (onActivate cn w))) = filter (\<lambda>p. fst p = cn) (caches w)"
proof -
  have "caches (fst (snd (onActivate cn w))) = fst (delete_old cn (caches_keys (caches w)) (caches w))"
    by (simp add: onActivate_def split_beta Let_def)
  also have "\<dots> = filter (\<lambda>p. fst p = cn) (caches w)"
    unfolding delete_old_fst by (rule filter_cong) (auto simp: caches_keys_def)
  finally show ?thesis .
qed

text \<open>
  Claim C7. \<open>onActivate\<close> leaves exactly the stores whose name is the current cache name,
  with their contents, and deletes the others: the names afterwards are the names before
  that equal the current one, the names reported as deleted are the names before that
  differ from it. With stores \<open>v1\<close> and \<open>v2\<close> and current name \<open>v2\<close>, only \<open>v1\<close> is
  deleted. The handler then claims the clients, and its promise is fulfilled.
\<close>

theorem onActivate_keeps_current_only:
  "fst (onActivate cn w) = Inr ()
   \<and> caches (fst (snd (onActivate cn w))) = filter (\<lambda>p. fst p = cn) (caches w)
   \<and> set (caches_keys (caches (fst (snd (onActivate cn w))))) = set (caches_keys (caches w)) \<inter> {cn}
   \<and> deleted (snd (snd (onActivate cn w))) = filter (\<lambda>n. n \<noteq> cn) (caches_keys (caches w))
   \<and> clientsClaimed (fst (snd (onActivate cn w)))
   \<and> skipWaitingCalled (fst (snd (onActivate cn w))) = skipWaitingCalled w
   \<and> caches (fst (snd (onActivate ''v2'' (w\<lparr>caches := [(''v1'', c1), (''v2'', c2)]\<rparr>)))) = [(''v2'', c2)]
   \<and> deleted (snd (snd (onActivate ''v2'' (w\<lparr>caches := [(''v1'', c1), (''v2'', c2)]\<rparr>)))) = [''v1'']"
proof -
  have 1: "fst (onActivate cn w) = Inr ()" for cn w
    by (simp add: onActivate_def split_beta Let_def)
  have 3: "set (caches_keys (caches (fst (snd (onActivate cn w))))) = set (caches_keys (caches w)) \<inter> {cn}"
    unfolding onActivate_caches by (auto simp: caches_keys_def)
  have 4: "deleted (snd (snd (onActivate cn w))) = filter (\<lambda>n. n \<noteq> cn) (caches_keys (caches w))" for cn w
    by (simp add: onActivate_def split_beta Let_def deleted_append delete_old_snd)
  have 5: "clientsClaimed (fst (snd (onActivate cn w)))"
    and 6: "skipWaitingCalled (fst (snd (onActivate cn w))) = skipWaitingCalled w"
    by (simp_all add: onActivate_def split_beta Let_def)
  have 7: "caches (fst (snd (onActivate ''v2'' (w\<lparr>caches := [(''v1'', c1), (''v2'', c2)]\<rparr>)))) = [(''v2'', c2)]"
    unfolding onActivate_caches by simp
  have 8: "deleted (snd (snd (onActivate ''v2'' (w\<lparr>caches := [(''v1'', c1), (''v2'', c2)]\<rparr>)))) = [''v1'']"
    unfolding 4 by (simp add: caches_keys_def)
  show ?thesis using 1 onActivate_caches 3 4 5 6 7 8 by blast
qed

text \<open>
  C7 at a concrete storage: an old version next to the current one.
\<close>

theorem onActivate_keeps_current_only_witness:
  "caches (fst (snd (onActivate CACHE_NAME
       (new_worker\<lparr>caches := [(''qr-reader-v0'', [(get_request ''/'', page_response)]), (CACHE_NAME, [])]\<rparr>))))
     = [(CACHE_NAME, [])]
   \<and> deleted (snd (snd (onActivate CACHE_NAME
       (new_worker\<lparr>caches := [(''qr-reader-v0'', [(get_request ''/'', page_response)]), (CACHE_NAME, [])]\<rparr>))))
     = [''qr-reader-v0'']
   \<and> clientsClaimed (fst (snd (onActivate CACHE_NAME
       (new_worker\<lparr>caches := [(''qr-reader-v0'', [(get_request ''/'', page_response)]), (CACHE_NAME, [])]\<rparr>))))"
  using onActivate_keeps_current_only [of CACHE_NAME
       "new_worker\<lparr>caches := [(''qr-reader-v0'', [(get_request ''/'', page_response)]), (CACHE_NAME, [])]\<rparr>"]
  by (simp add: CACHE_NAME_def caches_keys_def)

subsection \<open>Installation\<close>

lemma fetch_all_fails:
  "u \<in> set urls \<Longrightarrow> fetch N (get_request u) = Inl e \<Longrightarrow> isl (fetch_all N urls)"
  by (induction urls) (auto split: sum.splits option.splits)

lemma fetch_all_succeeds:
  "list_all (fetched N) urls \<Longrightarrow>
     fetch_all N urls = Inr (map (\<lambda>u. (get_request u, projr (fetch N (get_request u)))) urls)"
  by (induction urls) (auto simp: fetched_def split: sum.splits option.splits)

lemma map_of_put_all:
  "\<forall>p \<in> set ps. snd p = g (fst p) \<Longrightarrow>
     map_of (put_all ps c) k = (if k \<in> fst ` set ps then Some (g k) else map_of c k)"
proof (induction ps arbitrary: c)
  case Nil show ?case by simp
next
  case (Cons p ps)
  obtain q r where p: "p = (q, r)" by (cases p)
  from Cons.prems have "\<forall>p \<in> set ps. snd p = g (fst p)" and r: "r = g q" by (auto simp: p)
  then show ?case by (auto simp: p Cons.IH update_conv')
qed

lemma cache_of_update: "cache_of name (AList.update name c cs) = c"
  by (simp add: cache_of_def update_conv')

lemma cache_of_snoc_empty: "cache_of name (cs @ [(cn, [])]) = cache_of name cs"
  by (cases "map_of cs name") (auto simp: cache_of_def map_add_def)

lemma cache_of_opened:
  "caches_open N cn cs = Inr cs1 \<Longrightarrow> cache_of name cs1 = cache_of name cs"
  by (auto simp: caches_open_def cache_of_snoc_empty split: option.splits if_splits)

lemma first_match_snoc_empty: "first_match (cs @ [(name, [])]) q = first_match cs q"
  by (induction cs q rule: first_match.induct) (auto split: option.splits)

lemma first_match_opened:
  "caches_open N cn cs = Inr cs1 \<Longrightarrow> first_match cs1 q = first_match cs q"
  by (auto simp: caches_open_def first_match_snoc_empty split: option.splits if_splits)

lemma opened_has_name: "caches_open N cn cs = Inr cs1 \<Longrightarrow> \<exists>c. (cn, c) \<in> set cs1"
  by (auto simp: caches_open_def caches_keys_def split: option.splits if_splits)

lemma first_match_update:
  "first_match cs q = None \<Longrightarrow> \<exists>c. (cn, c) \<in> set cs \<Longrightarrow>
     first_match (AList.update cn c' cs) q = map_of c' q"
proof (induction cs)
  case Nil then show ?case by simp
next
  case (Cons p cs)
  obtain name c where p: "p = (name, c)" by (cases p)
  from Cons.prems(1) have miss: "map_of c q = None" "first_match cs q = None"
    by (auto simp: p split: option.splits)
  show ?case
  proof (cases "name = cn")
    case True
    then show ?thesis using miss by (simp add: p split: option.splits)
  next
    case False
    with Cons.prems(2) have "\<exists>c. (cn, c) \<in> set cs" by (auto simp: p)
    from Cons.IH [OF miss(2) this] False miss show ?thesis by (simp add: p)
  qed
qed

lemma onInstall_outcome: "fst (onInstall N cn urls w) = Inr ()"
  by (simp add: onInstall_def split: sum.splits)

lemma onInstall_failed:
  assumes "u \<in> set urls" "fetch N (get_request u) = Inl e"
  shows "(\<exists>e'. ErrCache e' \<in> set (snd (snd (onInstall N cn urls w))))
    \<and> skipWaitingCalled (fst (snd (onInstall N cn urls w))) = skipWaitingCalled w
    \<and> cache_of name (caches (fst (snd (onInstall N cn urls w)))) = cache_of name (caches w)
    \<and> first_match (caches (fst (snd (onInstall N cn urls w)))) q = first_match (caches w) q"
proof -
  from fetch_all_fails [OF assms] obtain e' where f: "fetch_all N urls = Inl e'"
    by (cases "fetch_all N urls") auto
  show ?thesis
  proof (cases "caches_open N cn (caches w)")
    case (Inl a)
    then show ?thesis by (simp add: onInstall_def)
  next
    case (Inr cs1)
    then show ?thesis
      using cache_of_opened [OF Inr] first_match_opened [OF Inr]
      by (simp add: onInstall_def cache_addAll_def f)
  qed
qed

lemma onInstall_succeeded:
  assumes "open_rejects N = None" "list_all (fetched N) urls"
  shows "skipWaitingCalled (fst (snd (onInstall N cn urls w)))
    \<and> (\<forall>u \<in> set urls. map_of (cache_of cn (caches (fst (snd (onInstall N cn urls w))))) (get_request u)
           = Some (projr (fetch N (get_request u))))
    \<and> LogCacheDone \<in> set (snd (snd (onInstall N cn urls w)))"
proof -
  let ?ps = "map (\<lambda>u. (get_request u, projr (fetch N (get_request u)))) urls"
  obtain cs1 where o: "caches_open N cn (caches w) = Inr cs1"
    using assms(1) by (simp add: caches_open_def)
  have w': "onInstall N cn urls w =
     (Inr (), w\<lparr>caches := AList.update cn (put_all ?ps (cache_of cn cs1)) cs1, skipWaitingCalled := True\<rparr>,
      [LogInstalling, LogCaching, LogCacheDone])"
    by (simp add: onInstall_def o cache_addAll_def fetch_all_succeeds [OF assms(2)])
  have "map_of (put_all ?ps c) (get_request u) = Some (projr (fetch N (get_request u)))"
    if "u \<in> set urls" for u c
    using that by (subst map_of_put_all [where g = "\<lambda>q. projr (fetch N q)"]) (auto simp: image_image)
  then show ?thesis by (simp add: w' cache_of_update)
qed

text \<open>
  Claim C5. The promise \<open>onInstall\<close> hands to the platform is always fulfilled. If the
  fetch of some URL of the list fails, the error is logged, \<open>skipWaiting\<close> is not
  called, and the store holds what it held before (nothing, if it is new): no lookup
  finds an entry that was not there before. If the store can be opened and every URL
  can be fetched and stored, \<open>skipWaiting\<close> is called and every URL of the list is in the
  store with the response fetched for it. That no entry is written when one fetch fails
  is the contract of the platform's \<open>cache.addAll\<close>, which the handler relies on.
\<close>

theorem onInstall_all_or_nothing:
  "fst (onInstall N cn urls w) = Inr ()
   \<and> ((\<exists>u \<in> set urls. isl (fetch N (get_request u))) \<longrightarrow>
        (\<exists>e. ErrCache e \<in> set (snd (snd (onInstall N cn urls w))))
      \<and> skipWaitingCalled (fst (snd (onInstall N cn urls w))) = skipWaitingCalled w
      \<and> cache_of cn (caches (fst (snd (onInstall N cn urls w)))) = cache_of cn (caches w)
      \<and> (\<forall>q. first_match (caches (fst (snd (onInstall N cn urls w)))) q = first_match (caches w) q))
   \<and> (open_rejects N = None \<and> list_all (fetched N) urls \<longrightarrow>
        skipWaitingCalled (fst (snd (onInstall N cn urls w)))
      \<and> (\<forall>u \<in> set urls. map_of (cache_of cn (caches (fst (snd (onInstall N cn urls w))))) (get_request u)
             = Some (projr (fetch N (get_request u)))))"
proof (intro conjI impI)
  show "fst (onInstall N cn urls w) = Inr ()" by (rule onInstall_outcome)
next
  assume "\<exists>u \<in> set urls. isl (fetch N (get_request u))"
  then obtain u e where u: "u \<in> set urls" "fetch N (get_request u) = Inl e"
    by (auto simp: isl_def)
  note f = onInstall_failed [OF u, of cn w]
  show "\<exists>e. ErrCache e \<in> set (snd (snd (onInstall N cn urls w)))" using f by blast
  show "skipWaitingCalled (fst (snd (onInstall N cn urls w))) = skipWaitingCalled w" using f by blast
  show "cache_of cn (caches (fst (snd (onInstall N cn urls w)))) = cache_of cn (caches w)" using f by blast
  show "\<forall>q. first_match (caches (fst (snd (onInstall N cn urls w)))) q = first_match (caches w) q" using f by blast
next
  assume a: "open_rejects N = None \<and> list_all (fetched N) urls"
  then have s: "open_rejects N = None" "list_all (fetched N) urls" by simp_all
  note g = onInstall_succeeded [OF s, of cn w]
  show "skipWaitingCalled (fst (snd (onInstall N cn urls w)))" using g by blast
  show "\<forall>u \<in> set urls. map_of (cache_of cn (caches (fst (snd (onInstall N cn urls w))))) (get_request u)
             = Some (projr (fetch N (get_request u)))" using g by blast
qed

text \<open>
  C5 with the URL list of the source: one icon unreachable, then all assets reachable.
\<close>

theorem onInstall_all_or_nothing_witness:
  "''/PWA-QR-Reader/icon-512.png'' \<in> set urlsToCache
   \<and> isl (fetch icon_missing_network (get_request ''/PWA-QR-Reader/icon-512.png''))
   \<and> fst (onInstall icon_missing_network CACHE_NAME urlsToCache new_worker) = Inr ()
   \<and> \<not> skipWaitingCalled (fst (snd (onInstall icon_missing_network CACHE_NAME urlsToCache new_worker)))
   \<and> cache_of CACHE_NAME (caches (fst (snd (onInstall icon_missing_network CACHE_NAME urlsToCache new_worker)))) = []
   \<and> first_match (caches (fst (snd (onInstall icon_missing_network CACHE_NAME urlsToCache new_worker))))
        (get_request ''/PWA-QR-Reader/index.html'') = None
   \<and> open_rejects working_network = None \<and> list_all (fetched working_network) urlsToCache
   \<and> skipWaitingCalled (fst (snd (onInstall working_network CACHE_NAME urlsToCache new_worker)))
   \<and> map_of (cache_of CACHE_NAME (caches (fst (snd (onInstall working_network CACHE_NAME urlsToCache new_worker)))))
        (get_request ''/PWA-QR-Reader/index.html'') = Some page_response"
proof -
  have u: "''/PWA-QR-Reader/icon-512.png'' \<in> set urlsToCache" "''/PWA-QR-Reader/index.html'' \<in> set urlsToCache"
    by (simp_all add: urlsToCache_def)
  have f: "isl (fetch icon_missing_network (get_request ''/PWA-QR-Reader/icon-512.png''))"
    by (simp add: icon_missing_network_def working_network_def get_request_def)
  have g: "open_rejects working_network = None" "list_all (fetched working_network) urlsToCache"
    by (simp_all add: working_network_def urlsToCache_def fetched_def get_request_def ok_status_def
          page_response_def)
  have n: "\<not> skipWaitingCalled new_worker" "cache_of CACHE_NAME (caches new_worker) = []"
    "first_match (caches new_worker) (get_request ''/PWA-QR-Reader/index.html'') = None"
    by (simp_all add: new_worker_def cache_of_def)
  have p: "projr (fetch working_network (get_request ''/PWA-QR-Reader/index.html'')) = page_response"
    by (simp add: working_network_def)
  from u f have ex: "\<exists>u \<in> set urlsToCache. isl (fetch icon_missing_network (get_request u))" by blast
  note A = onInstall_all_or_nothing [of icon_missing_network CACHE_NAME urlsToCache new_worker]
  note B = onInstall_all_or_nothing [of working_network CACHE_NAME urlsToCache new_worker]
  from A ex n have a: "fst (onInstall icon_missing_network CACHE_NAME urlsToCache new_worker) = Inr ()"
    "\<not> skipWaitingCalled (fst (snd (onInstall icon_missing_network CACHE_NAME urlsToCache new_worker)))"
    "cache_of CACHE_NAME (caches (fst (snd (onInstall icon_missing_network CACHE_NAME urlsToCache new_worker)))) = []"
    "first_match (caches (fst (snd (onInstall icon_missing_network CACHE_NAME urlsToCache new_worker))))
        (get_request ''/PWA-QR-Reader/index.html'') = None"
    by simp_all
  from B g u(2) p have b: "skipWaitingCalled (fst (snd (onInstall working_network CACHE_NAME urlsToCache new_worker)))"
    "map_of (cache_of CACHE_NAME (caches (fst (snd (onInstall working_network CACHE_NAME urlsToCache new_worker)))))
        (get_request ''/PWA-QR-Reader/index.html'') = Some page_response"
    by simp_all
  from u f g a b show ?thesis by blast
qed

subsection \<open>Fetch\<close>

lemma onFetch_miss:
  assumes "\<not> prefix ''https://cdn.jsdelivr.net/'' (url q)" "match_rejects N = None"
    "first_match (caches w) q = None" "fetch N q = Inr r"
  shows "onFetch N cn w q =
    (if status r \<noteq> 200 \<or> rtype r \<noteq> Basic then (Inr r, w, [NetFetch q])
     else (case write_through N cn q r (caches w) of
             (None, cs') \<Rightarrow> (Inr r, w\<lparr>caches := cs'\<rparr>, [NetFetch q])
           | (Some e, cs') \<Rightarrow> (Inr r, w\<lparr>caches := cs'\<rparr>, [NetFetch q, Unhandled e])))"
  using assms by (simp add: onFetch_def caches_match_def)

lemma write_through_stored:
  assumes "open_rejects N = None" "put_rejects N q = None" "first_match cs q = None"
  shows "\<exists>cs'. write_through N cn q r cs = (None, cs')
     \<and> map_of (cache_of cn cs') q = Some r \<and> first_match cs' q = Some r"
proof -
  obtain cs1 where o: "caches_open N cn cs = Inr cs1"
    using assms(1) by (simp add: caches_open_def)
  let ?c = "AList.update q r (cache_of cn cs1)"
  have w: "write_through N cn q r cs = (None, AList.update cn ?c cs1)"
    by (simp add: write_through_def o cache_put_def assms(2))
  have m: "first_match cs1 q = None" using first_match_opened [OF o] assms(3) by simp
  have "first_match (AList.update cn ?c cs1) q = map_of ?c q"
    by (rule first_match_update [OF m opened_has_name [OF o]])
  then show ?thesis by (simp add: w cache_of_update update_conv')
qed

text \<open>
  Claim C6, amended. For a request that is not for the decoder library's origin and that
  no store holds, the handler fetches from the network and returns the response as it is. If
  that response has status 200 and type basic, and the platform opens the store and
  accepts the entry, the response is afterwards in the current store under the request
  and a lookup of the request finds it. If the status is not 200 or the type is not
  basic, the storage is unchanged and the fetch is the handler's only event.
\<close>

theorem onFetch_write_through:
  assumes "\<not> prefix ''https://cdn.jsdelivr.net/'' (url q)" and "match_rejects N = None"
    and "first_match (caches w) q = None" and "fetch N q = Inr r"
  shows "fst (onFetch N cn w q) = Inr r
    \<and> NetFetch q \<in> set (snd (snd (onFetch N cn w q)))
    \<and> (status r = 200 \<and> rtype r = Basic \<and> open_rejects N = None \<and> put_rejects N q = None \<longrightarrow>
         map_of (cache_of cn (caches (fst (snd (onFetch N cn w q))))) q = Some r
       \<and> caches_match N (caches (fst (snd (onFetch N cn w q)))) q = Inr (Some r))
    \<and> (status r \<noteq> 200 \<or> rtype r \<noteq> Basic \<longrightarrow> snd (onFetch N cn w q) = (w, [NetFetch q]))"
proof (intro conjI impI)
  show "fst (onFetch N cn w q) = Inr r"
    by (simp add: onFetch_miss [OF assms] split: prod.splits option.splits)
  show "NetFetch q \<in> set (snd (snd (onFetch N cn w q)))"
    by (simp add: onFetch_miss [OF assms] split: prod.splits option.splits)
next
  assume "status r \<noteq> 200 \<or> rtype r \<noteq> Basic"
  then show "snd (onFetch N cn w q) = (w, [NetFetch q])"
    by (auto simp: onFetch_miss [OF assms])
next
  assume a: "status r = 200 \<and> rtype r = Basic \<and> open_rejects N = None \<and> put_rejects N q = None"
  then obtain cs' where c: "write_through N cn q r (caches w) = (None, cs')"
    "map_of (cache_of cn cs') q = Some r" "first_match cs' q = Some r"
    using write_through_stored [of N q "caches w" cn r] assms(3) by blast
  have s: "fst (snd (onFetch N cn w q)) = w\<lparr>caches := cs'\<rparr>"
    using a by (simp add: onFetch_miss [OF assms] c)
  show "map_of (cache_of cn (caches (fst (snd (onFetch N cn w q))))) q = Some r"
    by (simp add: s c)
  show "caches_match N (caches (fst (snd (onFetch N cn w q)))) q = Inr (Some r)"
    by (simp add: s c caches_match_def assms(2))
qed

text \<open>
  C6 at concrete requests: a page asset that is stored on its first fetch, and a 404
  response that is passed through.
\<close>

theorem onFetch_write_through_witness:
  "\<not> prefix ''https://cdn.jsdelivr.net/'' (url extra_request)
   \<and> match_rejects working_network = None
   \<and> first_match (caches new_worker) extra_request = None
   \<and> fetch working_network extra_request = Inr page_response
   \<and> status page_response = 200 \<and> rtype page_response = Basic
   \<and> open_rejects working_network = None \<and> put_rejects working_network extra_request = None
   \<and> fst (onFetch working_network CACHE_NAME new_worker extra_request) = Inr page_response
   \<and> caches_match working_network (caches (fst (snd (onFetch working_network CACHE_NAME new_worker extra_request))))
        extra_request = Inr (Some page_response)
   \<and> fetch missing_page_network extra_request = Inr not_found_response
   \<and> status not_found_response \<noteq> 200
   \<and> onFetch missing_page_network CACHE_NAME new_worker extra_request =
        (Inr not_found_response, new_worker, [NetFetch extra_request])"
proof -
  have h: "\<not> prefix ''https://cdn.jsdelivr.net/'' (url extra_request)"
    "match_rejects working_network = None" "first_match (caches new_worker) extra_request = None"
    "fetch working_network extra_request = Inr page_response"
    by (simp_all add: extra_request_def get_request_def working_network_def new_worker_def)
  have k: "status page_response = 200" "rtype page_response = Basic"
    "open_rejects working_network = None" "put_rejects working_network extra_request = None"
    by (simp_all add: page_response_def working_network_def extra_request_def get_request_def)
  have h': "match_rejects missing_page_network = None"
    "fetch missing_page_network extra_request = Inr not_found_response"
    "status not_found_response \<noteq> 200"
    by (simp_all add: missing_page_network_def working_network_def not_found_response_def)
  note A = onFetch_write_through [OF h, of CACHE_NAME]
  note B = onFetch_write_through [OF h(1) h'(1) h(3) h'(2), of CACHE_NAME]
  from B h'(3) have b: "onFetch missing_page_network CACHE_NAME new_worker extra_request =
      (Inr not_found_response, new_worker, [NetFetch extra_request])"
    by (simp add: prod_eq_iff)
  from A k b h h' show ?thesis by simp
qed

text \<open>
  Claim C6 as stated promises the stored entry for every request. The write is detached
  and the platform may refuse it: for a POST request answered with a same-origin 200
  response the caller gets the response, and a lookup of the request afterwards finds
  nothing.
\<close>

theorem onFetch_store_counterexample:
  "\<not> prefix ''https://cdn.jsdelivr.net/'' (url post_request)
   \<and> first_match (caches new_worker) post_request = None
   \<and> fetch working_network post_request = Inr page_response
   \<and> status page_response = 200 \<and> rtype page_response = Basic
   \<and> fst (onFetch working_network CACHE_NAME new_worker post_request) = Inr page_response
   \<and> first_match (caches (fst (snd (onFetch working_network CACHE_NAME new_worker post_request)))) post_request = None"
  by (simp add: post_request_def new_worker_def working_network_def page_response_def onFetch_def
        caches_match_def write_through_def caches_open_def cache_put_def caches_keys_def)

text \<open>
  Claim C8, amended. The promise \<open>onFetch\<close> hands to the platform is always fulfilled
  with a response. A failed network fetch for the decoder library's origin, a failed
  cache lookup, and a failed network fetch after a miss each give a synthesized response
  with status 503. The write into the store is detached from that promise: whenever the
  network fetch after a miss succeeds, its response is returned, whether or not the
  write succeeds.
\<close>

theorem onFetch_always_responds:
  "\<not> isl (fst (onFetch N cn w q))
   \<and> (prefix ''https://cdn.jsdelivr.net/'' (url q) \<and> isl (fetch N q) \<longrightarrow>
        fst (onFetch N cn w q) = Inr jsqr_offline_response)
   \<and> (\<not> prefix ''https://cdn.jsdelivr.net/'' (url q) \<and> match_rejects N \<noteq> None \<longrightarrow>
        fst (onFetch N cn w q) = Inr offline_response)
   \<and> (\<not> prefix ''https://cdn.jsdelivr.net/'' (url q) \<and> match_rejects N = None
        \<and> first_match (caches w) q = None \<and> isl (fetch N q) \<longrightarrow>
        fst (onFetch N cn w q) = Inr offline_response)
   \<and> (\<not> prefix ''https://cdn.jsdelivr.net/'' (url q) \<and> match_rejects N = None
        \<and> first_match (caches w) q = None \<and> fetch N q = Inr r \<longrightarrow>
        fst (onFetch N cn w q) = Inr r)
   \<and> status offline_response = 503 \<and> status jsqr_offline_response = 503"
proof (intro conjI impI)
  show "\<not> isl (fst (onFetch N cn w q))"
    by (simp add: onFetch_def split: sum.splits option.splits prod.splits)
  show "status offline_response = 503" "status jsqr_offline_response = 503"
    by (simp_all add: offline_response_def jsqr_offline_response_def)
next
  assume "prefix ''https://cdn.jsdelivr.net/'' (url q) \<and> isl (fetch N q)"
  then show "fst (onFetch N cn w q) = Inr jsqr_offline_response"
    by (auto simp: onFetch_def isl_def)
next
  assume "\<not> prefix ''https://cdn.jsdelivr.net/'' (url q) \<and> match_rejects N \<noteq> None"
  then show "fst (onFetch N cn w q) = Inr offline_response"
    by (auto simp: onFetch_def caches_match_def)
next
  assume "\<not> prefix ''https://cdn.jsdelivr.net/'' (url q) \<and> match_rejects N = None
        \<and> first_match (caches w) q = None \<and> isl (fetch N q)"
  then show "fst (onFetch N cn w q) = Inr offline_response"
    by (auto simp: onFetch_def caches_match_def isl_def)
next
  assume "\<not> prefix ''https://cdn.jsdelivr.net/'' (url q) \<and> match_rejects N = None
        \<and> first_match (caches w) q = None \<and> fetch N q = Inr r"
  then show "fst (onFetch N cn w q) = Inr r"
    by (simp add: onFetch_miss split: prod.splits option.splits)
qed

text \<open>
  C8 at concrete requests: the decoder library while offline, a page asset while the
  storage lookup fails, and a page asset while offline.
\<close>

theorem onFetch_always_responds_witness:
  "prefix ''https://cdn.jsdelivr.net/'' (url jsqr_request) \<and> isl (fetch offline_network jsqr_request)
   \<and> fst (onFetch offline_network CACHE_NAME new_worker jsqr_request) = Inr jsqr_offline_response
   \<and> \<not> prefix ''https://cdn.jsdelivr.net/'' (url extra_request)
   \<and> match_rejects broken_storage_network \<noteq> None
   \<and> fst (onFetch broken_storage_network CACHE_NAME new_worker extra_request) = Inr offline_response
   \<and> match_rejects offline_network = None \<and> first_match (caches new_worker) extra_request = None
   \<and> isl (fetch offline_network extra_request)
   \<and> fst (onFetch offline_network CACHE_NAME new_worker extra_request) = Inr offline_response
   \<and> status offline_response = 503"
proof -
  have h: "prefix ''https://cdn.jsdelivr.net/'' (url jsqr_request)" "isl (fetch offline_network jsqr_request)"
    "\<not> prefix ''https://cdn.jsdelivr.net/'' (url extra_request)"
    "match_rejects broken_storage_network \<noteq> None"
    "match_rejects offline_network = None" "first_match (caches new_worker) extra_request = None"
    "isl (fetch offline_network extra_request)"
    by (simp_all add: jsqr_request_def extra_request_def get_request_def offline_network_def
          broken_storage_network_def working_network_def new_worker_def)
  note A = onFetch_always_responds [of offline_network CACHE_NAME new_worker jsqr_request]
  note B = onFetch_always_responds [of broken_storage_network CACHE_NAME new_worker extra_request]
  note C = onFetch_always_responds [of offline_network CACHE_NAME new_worker extra_request]
  from A B C h show ?thesis by simp
qed

text \<open>
  Claim C8 as stated says that a failure during the store gives the 503 response. When
  the platform rejects the write, the caller gets the network's response with status
  200, and the rejection is left unhandled.
\<close>

theorem onFetch_store_failure_counterexample:
  "\<not> prefix ''https://cdn.jsdelivr.net/'' (url post_request)
   \<and> put_rejects working_network post_request = Some (JsError ''TypeError'')
   \<and> onFetch working_network CACHE_NAME new_worker post_request =
       (Inr page_response, new_worker\<lparr>caches := [(CACHE_NAME, [])]\<rparr>,
        [NetFetch post_request, Unhandled (JsError ''TypeError'')])
   \<and> status page_response = 200"
  by (simp add: post_request_def new_worker_def working_network_def page_response_def onFetch_def
        caches_match_def write_through_def caches_open_def cache_put_def caches_keys_def)

end
